theory Spec2Isabelle
  imports Complex_Main "HOL-Library.Multiset"
begin

section \<open>The client hook (hooks/use-offline-sync.ts)\<close>

subsection \<open>SYNC\_CONFIG\<close>

definition POLL_INTERVAL_ONLINE :: nat where "POLL_INTERVAL_ONLINE = 5000"
definition POLL_INTERVAL_OFFLINE :: nat where "POLL_INTERVAL_OFFLINE = 30000"
definition BASE_RETRY_DELAY :: real where "BASE_RETRY_DELAY = 1000"
definition MAX_RETRY_DELAY :: real where "MAX_RETRY_DELAY = 30000"
definition MAX_RETRIES :: nat where "MAX_RETRIES = 10"
definition BATCH_SIZE :: nat where "BATCH_SIZE = 50"

text \<open>
  The literal \<open>500\<close> of \<open>getRetryDelay\<close>: \<open>Math.random() * 500\<close> is a number in
  \<open>[0, 500)\<close>. The source has no name for it; the specification calls it JITTER\_MAX.
\<close>

definition JITTER_MAX :: real where "JITTER_MAX = 500"

subsection \<open>getRetryDelay\<close>

text \<open>
  \<open>getRetryDelay(retryCount)\<close> draws \<open>Math.random()\<close>; the drawn jitter is an argument
  of the model. JavaScript numbers are taken as reals. In doubles \<open>1000 * 2^k\<close> is
  exact, the sum with a jitter below 500 rounds to a value between \<open>1000 * 2^k\<close> and
  \<open>1000 * 2^k + 500\<close> (both are doubles, rounding is monotone), and from \<open>k = 5\<close> on the
  minimum is the cap, so the bounds proved on reals are those of the doubles.
\<close>

definition getRetryDelay :: "nat \<Rightarrow> real \<Rightarrow> real" where
  "getRetryDelay retryCount jitter =
     (let delay = BASE_RETRY_DELAY * 2 ^ retryCount
      in min (delay + jitter) MAX_RETRY_DELAY)"

subsection \<open>The snapshot queries\<close>

text \<open>
  The options object handed to \<open>trpc.scanLogs.list.useQuery\<close> and to
  \<open>trpc.participants.list.useQuery\<close>. \<open>refetchInterval\<close> is a number of milliseconds or
  \<open>false\<close> (no periodic refetch), here \<open>None\<close>.
\<close>

record query_options =
  refetchInterval :: "nat option"
  staleTime :: nat

definition scanLogs_query_options :: "bool \<Rightarrow> query_options" where
  "scanLogs_query_options isOnline =
     \<lparr>refetchInterval = (if isOnline then Some POLL_INTERVAL_ONLINE else None),
      staleTime = 2000\<rparr>"

definition participants_query_options :: "bool \<Rightarrow> query_options" where
  "participants_query_options isOnline =
     \<lparr>refetchInterval = (if isOnline then Some POLL_INTERVAL_ONLINE else None),
      staleTime = 2000\<rparr>"

subsection \<open>Data\<close>

text \<open>
  \<open>interface PendingScan\<close>. The field \<open>id\<close> is \<open>id_scan\<close> here (\<open>id\<close> is HOL's
  identity function). \<open>retryCount\<close> starts at 0 and is only ever incremented, so it is a
  natural number.
\<close>

record PendingScan =
  id_scan :: string
  participantId :: string
  checkpointId :: int
  timestamp :: string
  deviceId :: string
  gpsLat :: "real option"
  gpsLng :: "real option"
  retryCount :: nat
  createdAt :: string

text \<open>\<open>ScanLog\<close> of the app's types, as the hook builds it; its fields carry the prefix \<open>log_\<close>.\<close>

record ScanLog =
  log_id :: string
  log_participantId :: string
  log_checkpointId :: int
  log_timestamp :: string
  log_deviceId :: "string option"
  log_gpsLat :: "real option"
  log_gpsLng :: "real option"
  synced :: bool

text \<open>
  The values one render of \<open>useOfflineSync\<close> binds and its callbacks close over:
  \<open>isOnline\<close>, \<open>isSyncing\<close>, \<open>pendingScans\<close> and \<open>deviceId\<close> are the \<open>const\<close>s that
  \<open>useState\<close> returned for that render, \<open>scanLogs\<close> is the mapped query data. Every
  callback below lists \<open>pendingScans\<close> among its dependencies, so \<open>addScan\<close>,
  \<open>syncSingleScan\<close> and \<open>syncPendingScans\<close> of one render read the same list, and keep
  reading it while they run: \<open>setPendingScans\<close> changes what the next render binds, not
  the binding a running callback holds.
\<close>

record render =
  isOnline :: bool
  isSyncing :: bool
  pendingScans :: "PendingScan list"
  scanLogs :: "ScanLog list"
  hook_deviceId :: string

text \<open>What a callback does to the world outside its closure, in the order it does it.\<close>

datatype effect =
    StorageSet_PENDING_SCANS "PendingScan list"
  | SetPendingScans "PendingScan list"
  | MutateAsync PendingScan
  | ConsoleError string
  | SetTimeout real
  | SetIsSyncing bool
  | SetSyncError "string option"
  | StorageSet_LAST_SYNC string
  | SetLastSyncTime string
  | RefetchScanLogs

text \<open>
  The device: the React state as last set (what the next render will bind), the two
  AsyncStorage keys the hook writes, and the chronological record of effects.
\<close>

record device =
  state_pendingScans :: "PendingScan list"
  state_isSyncing :: bool
  state_syncError :: "string option"
  state_lastSyncTime :: "string option"
  storage_PENDING_SCANS :: "PendingScan list option"
  storage_LAST_SYNC :: "string option"
  trace :: "effect list"

text \<open>A promise settles: it is fulfilled with a value or it rejects (the \<open>await\<close> throws).\<close>

datatype 'a settled = Fulfilled 'a | Threw

text \<open>
  How \<open>createScanMutation.mutateAsync\<close> settles: with the server's
  \<open>{success, duplicate}\<close>, or by rejecting (network error, timeout, server error).
\<close>

datatype mutation_outcome = Resolved bool bool | Rejected

text \<open>The return value of \<open>addScan\<close>.\<close>

record add_result =
  success :: bool
  duplicate :: bool
  scanLog :: "ScanLog option"

definition emit :: "effect \<Rightarrow> device \<Rightarrow> device" where
  "emit e dv = dv\<lparr>trace := trace dv @ [e]\<rparr>"

text \<open>The scans a trace sent to the server, in the order they were sent.\<close>

fun dispatched :: "effect list \<Rightarrow> PendingScan list" where
  "dispatched [] = []"
| "dispatched (MutateAsync s # es) = s # dispatched es"
| "dispatched (e # es) = dispatched es"

text \<open>The entry \<open>allScanLogs\<close> shows for a pending scan.\<close>

definition pending_as_log :: "PendingScan \<Rightarrow> ScanLog" where
  "pending_as_log p =
     \<lparr>log_id = id_scan p, log_participantId = participantId p,
      log_checkpointId = checkpointId p, log_timestamp = timestamp p,
      log_deviceId = Some (deviceId p), log_gpsLat = gpsLat p, log_gpsLng = gpsLng p,
      synced = False\<rparr>"

definition allScanLogs :: "ScanLog list \<Rightarrow> PendingScan list \<Rightarrow> ScanLog list" where
  "allScanLogs logs pending = logs @ map pending_as_log pending"

subsection \<open>savePendingScans\<close>

text \<open>
  \<open>await AsyncStorage.setItem(...)\<close>, then \<open>setPendingScans(scans)\<close>. The flag says
  whether the storage write resolves; when it rejects, the state setter is not reached.
\<close>

definition savePendingScans :: "PendingScan list \<Rightarrow> bool \<Rightarrow> device \<Rightarrow> device option" where
  "savePendingScans scans stored dv =
     (if stored
      then Some (dv\<lparr>storage_PENDING_SCANS := Some scans,
                    state_pendingScans := scans,
                    trace := trace dv @ [StorageSet_PENDING_SCANS scans, SetPendingScans scans]\<rparr>)
      else None)"

subsection \<open>isDuplicateScan\<close>

definition isDuplicateScan :: "render \<Rightarrow> string \<Rightarrow> int \<Rightarrow> bool" where
  "isDuplicateScan rd pid cid =
     (let inSynced = (\<exists>log \<in> set (scanLogs rd).
                        log_participantId log = pid \<and> log_checkpointId log = cid);
          inPending = (\<exists>scan \<in> set (pendingScans rd).
                        participantId scan = pid \<and> checkpointId scan = cid)
      in inSynced \<or> inPending)"

subsection \<open>syncSingleScan\<close>

text \<open>The \<open>catch\<close> block: log, increment the retry count, drop what reached the ceiling, save.\<close>

definition syncSingleScan_catch ::
  "render \<Rightarrow> PendingScan \<Rightarrow> bool \<Rightarrow> device \<Rightarrow> bool settled \<times> device" where
  "syncSingleScan_catch rd scan stored dv =
     (let dv1 = emit (ConsoleError ''[OfflineSync] Failed to sync scan:'') dv;
          updated = map (\<lambda>s. if id_scan s = id_scan scan
                              then s\<lparr>retryCount := retryCount s + 1\<rparr> else s)
                        (pendingScans rd);
          filtered = filter (\<lambda>s. retryCount s < MAX_RETRIES) updated
      in case savePendingScans filtered stored dv1 of
           Some dv2 \<Rightarrow> (Fulfilled False, dv2)
         | None \<Rightarrow> (Threw, dv1))"

text \<open>
  What happens once \<open>mutateAsync\<close> has settled. \<open>stored_try\<close> and \<open>stored_catch\<close> say
  whether the storage write of the \<open>try\<close> block and of the \<open>catch\<close> block resolve.
\<close>

definition syncSingleScan_settle ::
  "render \<Rightarrow> PendingScan \<Rightarrow> mutation_outcome \<Rightarrow> bool \<Rightarrow> bool \<Rightarrow> device
     \<Rightarrow> bool settled \<times> device" where
  "syncSingleScan_settle rd scan outcome stored_try stored_catch dv =
     (case outcome of
        Resolved result_success result_duplicate \<Rightarrow>
          if result_success \<or> result_duplicate then
            (let updated = filter (\<lambda>s. id_scan s \<noteq> id_scan scan) (pendingScans rd)
             in case savePendingScans updated stored_try dv of
                  Some dv1 \<Rightarrow> (Fulfilled True, dv1)
                | None \<Rightarrow> syncSingleScan_catch rd scan stored_catch dv)
          else (Fulfilled False, dv)
      | Rejected \<Rightarrow> syncSingleScan_catch rd scan stored_catch dv)"

definition syncSingleScan ::
  "render \<Rightarrow> PendingScan \<Rightarrow> mutation_outcome \<Rightarrow> bool \<Rightarrow> bool \<Rightarrow> device
     \<Rightarrow> bool settled \<times> device" where
  "syncSingleScan rd scan outcome stored_try stored_catch dv =
     syncSingleScan_settle rd scan outcome stored_try stored_catch (emit (MutateAsync scan) dv)"

subsection \<open>addScan\<close>

text \<open>
  \<open>crypto.randomUUID()\<close> and the two calls of \<open>new Date().toISOString()\<close> (for
  \<open>timestamp\<close> and for \<open>createdAt\<close>) are arguments of the model.
\<close>

definition newScan :: "render \<Rightarrow> string \<Rightarrow> int \<Rightarrow> real option \<Rightarrow> real option
     \<Rightarrow> string \<Rightarrow> string \<Rightarrow> string \<Rightarrow> PendingScan" where
  "newScan rd pid cid lat lng randomUUID now created =
     \<lparr>id_scan = randomUUID, participantId = pid, checkpointId = cid, timestamp = now,
      deviceId = hook_deviceId rd, gpsLat = lat, gpsLng = lng, retryCount = 0,
      createdAt = created\<rparr>"

text \<open>
  \<open>addScan\<close> up to its \<open>return\<close>. When online it calls \<open>syncSingleScan(newScan)\<close> without
  \<open>await\<close>: the request is sent (\<open>MutateAsync\<close>) and \<open>addScan\<close> returns; the promise
  settles later, see \<open>addScan_dispatch_settled\<close>.
\<close>

definition addScan :: "render \<Rightarrow> string \<Rightarrow> int \<Rightarrow> real option \<Rightarrow> real option
     \<Rightarrow> string \<Rightarrow> string \<Rightarrow> string \<Rightarrow> bool \<Rightarrow> device
     \<Rightarrow> add_result settled \<times> device" where
  "addScan rd pid cid lat lng randomUUID now created stored dv =
     (if isDuplicateScan rd pid cid
      then (Fulfilled \<lparr>success = False, duplicate = True, scanLog = None\<rparr>, dv)
      else
        (let new = newScan rd pid cid lat lng randomUUID now created;
             updatedPending = pendingScans rd @ [new]
         in case savePendingScans updatedPending stored dv of
              None \<Rightarrow> (Threw, dv)
            | Some dv1 \<Rightarrow>
                (Fulfilled \<lparr>success = True, duplicate = False,
                            scanLog = Some (pending_as_log new)\<rparr>,
                 if isOnline rd then emit (MutateAsync new) dv1 else dv1)))"

text \<open>
  The rest of the call \<open>syncSingleScan(newScan)\<close> that \<open>addScan\<close> started: the same
  closure, hence the same \<open>pendingScans\<close> as \<open>addScan\<close> read, applied to the device as it
  is when the request settles.
\<close>

definition addScan_dispatch_settled ::
  "render \<Rightarrow> PendingScan \<Rightarrow> mutation_outcome \<Rightarrow> bool \<Rightarrow> bool \<Rightarrow> device
     \<Rightarrow> bool settled \<times> device" where
  "addScan_dispatch_settled rd new outcome stored_try stored_catch dv =
     syncSingleScan_settle rd new outcome stored_try stored_catch dv"

subsection \<open>syncPendingScans\<close>

text \<open>
  What one turn of the loop meets: \<open>isMountedRef.current\<close> at its head, the jitter drawn
  by \<open>getRetryDelay\<close>, how the request settles, and whether the storage writes resolve.
\<close>

record attempt =
  mounted :: bool
  jitter :: real
  response :: mutation_outcome
  stored_try :: bool
  stored_catch :: bool

fun sync_loop :: "render \<Rightarrow> (nat \<Rightarrow> attempt) \<Rightarrow> nat \<Rightarrow> PendingScan list \<Rightarrow> device
     \<Rightarrow> unit settled \<times> device" where
  "sync_loop rd env i [] dv = (Fulfilled (), dv)"
| "sync_loop rd env i (scan # rest) dv =
     (if \<not> mounted (env i) then (Fulfilled (), dv)
      else
        (let dv1 = (if retryCount scan > 0
                    then emit (SetTimeout (getRetryDelay (retryCount scan) (jitter (env i)))) dv
                    else dv)
         in case syncSingleScan rd scan (response (env i)) (stored_try (env i))
                   (stored_catch (env i)) dv1 of
              (Threw, dv2) \<Rightarrow> (Threw, dv2)
            | (Fulfilled ok, dv2) \<Rightarrow>
                sync_loop rd env (Suc i) rest
                  (if ok then emit (SetTimeout 50) dv2 else dv2)))"

definition scansToSync :: "PendingScan list \<Rightarrow> PendingScan list" where
  "scansToSync pending =
     (let sortedScans = sort_key retryCount pending
      in take BATCH_SIZE sortedScans)"

text \<open>The outer \<open>catch\<close> block.\<close>

definition syncPendingScans_catch :: "device \<Rightarrow> device" where
  "syncPendingScans_catch dv =
     (let dv1 = emit (ConsoleError ''[OfflineSync] Sync failed:'') dv;
          msg = Some ''Sync failed. Will retry automatically.''
      in (emit (SetSyncError msg) dv1)\<lparr>state_syncError := msg\<rparr>)"

text \<open>
  \<open>syncPendingScans\<close>. \<open>now\<close> is \<open>new Date()\<close> after the loop, \<open>stored_last\<close> says whether
  writing LAST\_SYNC resolves, \<open>mounted_end\<close> is \<open>isMountedRef.current\<close> in the \<open>finally\<close>
  block. \<open>Array.prototype.sort\<close> is stable, as \<open>sort_key\<close> is.
\<close>

definition syncPendingScans ::
  "render \<Rightarrow> (nat \<Rightarrow> attempt) \<Rightarrow> string \<Rightarrow> bool \<Rightarrow> bool \<Rightarrow> device \<Rightarrow> device" where
  "syncPendingScans rd env now stored_last mounted_end dv =
     (if \<not> isOnline rd \<or> isSyncing rd \<or> pendingScans rd = [] then dv
      else
        (let dv1 = (emit (SetIsSyncing True) dv)\<lparr>state_isSyncing := True\<rparr>;
             dv2 = (emit (SetSyncError None) dv1)\<lparr>state_syncError := None\<rparr>;
             dv3 = (case sync_loop rd env 0 (scansToSync (pendingScans rd)) dv2 of
                      (Threw, d) \<Rightarrow> syncPendingScans_catch d
                    | (Fulfilled u, d) \<Rightarrow>
                        if stored_last then
                          emit RefetchScanLogs
                            ((emit (SetLastSyncTime now)
                               ((emit (StorageSet_LAST_SYNC now) d)
                                  \<lparr>storage_LAST_SYNC := Some now\<rparr>))
                               \<lparr>state_lastSyncTime := Some now\<rparr>)
                        else syncPendingScans_catch d)
         in if mounted_end
            then (emit (SetIsSyncing False) dv3)\<lparr>state_isSyncing := False\<rparr>
            else dv3))"


section \<open>The secondary sink: GoogleSheetsLogger (server/google-sheets-logger.ts)\<close>

text \<open>
  \<open>interface ScanLogData\<close>; the fields whose names the client's \<open>PendingScan\<close> already
  uses carry the prefix \<open>data_\<close>.
\<close>

record ScanLogData =
  uuid :: string
  participantUuid :: string
  participantName :: string
  participantBadge :: string
  data_checkpointId :: int
  checkpointName :: string
  data_deviceId :: "string option"
  data_gpsLat :: "string option"
  data_gpsLng :: "string option"
  scannedAt :: string

record GoogleSheetsConfig =
  spreadsheetId :: string
  apiKey :: string
  enabled :: bool

text \<open>The lines the logger writes to the console, by call site.\<close>

datatype console_line =
    Warn_not_configured
  | Warn_set_variables
  | Log_initialized
  | Error_connection_test_failed
  | Log_connected_to
  | Log_retrying nat
  | Error_dropping_scan string
  | Log_still_pending nat
  | Error_failed_to_log_scan
  | Log_logged_scan string string
  | Error_error_logging_scan
  | Log_added_to_retry_queue nat

text \<open>
  The object's fields. \<open>retryInterval\<close> is the timer handle or \<open>null\<close>; only whether it
  is set matters. \<open>maxRetryQueueSize\<close> is initialised to 1000 and never assigned again.
\<close>

record GoogleSheetsLogger =
  config :: "GoogleSheetsConfig option"
  isInitialized :: bool
  failedScans :: "ScanLogData list"
  retryInterval :: bool
  console :: "console_line list"

definition maxRetryQueueSize :: nat where "maxRetryQueueSize = 1000"

definition say :: "console_line \<Rightarrow> GoogleSheetsLogger \<Rightarrow> GoogleSheetsLogger" where
  "say l lg = lg\<lparr>console := console lg @ [l]\<rparr>"

text \<open>
  How the \<open>fetch\<close> of \<open>logScanDirect\<close> ends: \<open>response.ok\<close>, a response that is not ok
  (with \<open>error.error?.message\<close>), or an exception (with its message when it is an \<open>Error\<close>).
  For a response that is not ok the source takes \<open>error.error?.message || "Failed to
  append to sheet"\<close>: a missing message and the empty string both give the default. For
  an exception it takes \<open>error.message\<close> as it is, also when empty.
\<close>

datatype fetch_outcome =
    Response_ok
  | Response_not_ok "string option"
  | Fetch_threw "string option"

datatype log_result = LogResult (log_success: bool) (log_error: "string option")

text \<open>
  \<open>init\<close>: the two environment variables (\<open>!x\<close> holds of \<open>undefined\<close> and of the empty
  string) and the result of \<open>testConnection\<close>.
\<close>

definition init :: "string option \<Rightarrow> string option \<Rightarrow> bool \<Rightarrow> GoogleSheetsLogger
     \<Rightarrow> GoogleSheetsLogger" where
  "init GOOGLE_SHEETS_ID GOOGLE_SHEETS_API_KEY connection_ok lg =
     (if isInitialized lg then lg
      else
        (case (GOOGLE_SHEETS_ID, GOOGLE_SHEETS_API_KEY) of
           (Some sid, Some key) \<Rightarrow>
             if sid = [] \<or> key = [] then
               say Warn_set_variables
                 (say Warn_not_configured (lg\<lparr>config := None, isInitialized := True\<rparr>))
             else
               (let lg1 = say Log_initialized
                            (lg\<lparr>config := Some \<lparr>spreadsheetId = sid, apiKey = key,
                                                 enabled = True\<rparr>,
                                 isInitialized := True\<rparr>)
                in if \<not> connection_ok
                   then (say Error_connection_test_failed lg1)
                          \<lparr>config := Some \<lparr>spreadsheetId = sid, apiKey = key,
                                           enabled = False\<rparr>\<rparr>
                   else say Log_connected_to lg1)
         | _ \<Rightarrow>
             say Warn_set_variables
               (say Warn_not_configured (lg\<lparr>config := None, isInitialized := True\<rparr>))))"

definition startRetryProcessor :: "GoogleSheetsLogger \<Rightarrow> GoogleSheetsLogger" where
  "startRetryProcessor lg = (if retryInterval lg then lg else lg\<lparr>retryInterval := True\<rparr>)"

definition logScanDirect :: "ScanLogData \<Rightarrow> fetch_outcome \<Rightarrow> GoogleSheetsLogger
     \<Rightarrow> log_result \<times> GoogleSheetsLogger" where
  "logScanDirect scanData fetched lg =
     (case config lg of
        None \<Rightarrow> (LogResult True None, lg)
      | Some c \<Rightarrow>
          if \<not> enabled c then (LogResult True None, lg)
          else
            (case fetched of
               Response_ok \<Rightarrow>
                 (LogResult True None,
                  say (Log_logged_scan (participantName scanData) (checkpointName scanData)) lg)
             | Response_not_ok m \<Rightarrow>
                 (LogResult False
                    (Some (case m of
                             Some e \<Rightarrow> if e = [] then ''Failed to append to sheet'' else e
                           | None \<Rightarrow> ''Failed to append to sheet'')),
                  say Error_failed_to_log_scan lg)
             | Fetch_threw m \<Rightarrow>
                 (LogResult False
                    (Some (case m of Some e \<Rightarrow> e | None \<Rightarrow> ''Unknown error'')),
                  say Error_error_logging_scan lg)))"

text \<open>\<open>logScan\<close>. The environment is read only when the logger is not initialised yet.\<close>

definition logScan :: "string option \<Rightarrow> string option \<Rightarrow> bool \<Rightarrow> ScanLogData \<Rightarrow> fetch_outcome
     \<Rightarrow> GoogleSheetsLogger \<Rightarrow> log_result \<times> GoogleSheetsLogger" where
  "logScan GOOGLE_SHEETS_ID GOOGLE_SHEETS_API_KEY connection_ok scanData fetched lg =
     (let lg1 = (if \<not> isInitialized lg
                 then init GOOGLE_SHEETS_ID GOOGLE_SHEETS_API_KEY connection_ok lg else lg)
      in case config lg1 of
           None \<Rightarrow> (LogResult True None, lg1)
         | Some c \<Rightarrow>
             if \<not> enabled c then (LogResult True None, lg1)
             else
               (let lg2 = startRetryProcessor lg1;
                    (result, lg3) = logScanDirect scanData fetched lg2
                in if \<not> log_success result then
                     (if length (failedScans lg3) < maxRetryQueueSize
                      then (result,
                            say (Log_added_to_retry_queue (length (failedScans lg3) + 1))
                              (lg3\<lparr>failedScans := failedScans lg3 @ [scanData]\<rparr>))
                      else (result, lg3))
                   else (result, lg3)))"

text \<open>The body of the retry processor's \<open>for\<close> loop, for one scan of the snapshot.\<close>

definition retry_one :: "ScanLogData \<Rightarrow> fetch_outcome \<Rightarrow> GoogleSheetsLogger
     \<Rightarrow> GoogleSheetsLogger" where
  "retry_one scan fetched lg =
     (let (result, lg1) = logScanDirect scan fetched lg
      in if \<not> log_success result then
           (if length (failedScans lg1) < maxRetryQueueSize
            then lg1\<lparr>failedScans := failedScans lg1 @ [scan]\<rparr>
            else say (Error_dropping_scan (uuid scan)) lg1)
         else lg1)"

fun retry_loop :: "(nat \<Rightarrow> fetch_outcome) \<Rightarrow> nat \<Rightarrow> ScanLogData list \<Rightarrow> GoogleSheetsLogger
     \<Rightarrow> GoogleSheetsLogger" where
  "retry_loop fetched i [] lg = lg"
| "retry_loop fetched i (scan # rest) lg =
     retry_loop fetched (Suc i) rest (retry_one scan (fetched i) lg)"

text \<open>
  One firing of the 30-second interval, run without another call in between;
  \<open>fetched i\<close> is how the \<open>i\<close>-th redelivery ends.
\<close>

definition retry_tick :: "(nat \<Rightarrow> fetch_outcome) \<Rightarrow> GoogleSheetsLogger \<Rightarrow> GoogleSheetsLogger" where
  "retry_tick fetched lg =
     (if failedScans lg = [] then lg
      else
        (let lg1 = say (Log_retrying (length (failedScans lg))) lg;
             scansToRetry = failedScans lg1;
             lg2 = lg1\<lparr>failedScans := []\<rparr>;
             lg3 = retry_loop fetched 0 scansToRetry lg2
         in if length (failedScans lg3) > 0
            then say (Log_still_pending (length (failedScans lg3))) lg3
            else lg3))"

text \<open>What happens to the logger over time: calls of \<open>logScan\<close> and firings of the interval.\<close>

datatype logger_event =
    Call_logScan "string option" "string option" bool ScanLogData fetch_outcome
  | Tick "nat \<Rightarrow> fetch_outcome"

fun logger_step :: "logger_event \<Rightarrow> GoogleSheetsLogger \<Rightarrow> GoogleSheetsLogger" where
  "logger_step (Call_logScan sid key conn scanData fetched) lg =
     snd (logScan sid key conn scanData fetched lg)"
| "logger_step (Tick fetched) lg = retry_tick fetched lg"

fun logger_run :: "logger_event list \<Rightarrow> GoogleSheetsLogger \<Rightarrow> GoogleSheetsLogger" where
  "logger_run [] lg = lg"
| "logger_run (ev # evs) lg = logger_run evs (logger_step ev lg)"

section \<open>The authoritative write path\<close>

text \<open>
  The client calls \<open>scanLogs.create\<close> and the tests exercise it over HTTP; its
  implementation (server/routers.ts, server/db.ts) is not part of the sources verified
  here. The model below follows the contract of section 4.7 of the specification.
\<close>

text \<open>
  The fields of the specification's ScanEvent that \<open>create\<close> reads: \<open>id\<close> (the
  idempotency key, here \<open>event_id\<close>), \<open>participantRef\<close> and \<open>checkpointId\<close> (here
  \<open>event_checkpointId\<close>).
\<close>

record ScanEvent =
  event_id :: string
  participantRef :: string
  event_checkpointId :: int

record create_response =
  accepted :: bool
  resp_duplicate :: bool

type_synonym authoritative_store = "ScanEvent list"

definition event_key :: "ScanEvent \<Rightarrow> string \<times> int" where
  "event_key e = (participantRef e, event_checkpointId e)"

definition has_confirmed :: "string \<times> int \<Rightarrow> authoritative_store \<Rightarrow> bool" where
  "has_confirmed k store = (\<exists>e \<in> set store. event_key e = k)"

text \<open>
  Modelled from the spec: the Authoritative Write Path \<open>create\<close>, whose code is missing.
  "Must implement the check for an existing Confirmed row sharing (participantRef,
  checkpointId) and the insertion as a single atomic operation": one application of
  \<open>create\<close> is that operation, the check and the insertion with nothing in between. The
  rows of the store are the Confirmed events.
\<close>

definition create :: "ScanEvent \<Rightarrow> authoritative_store
     \<Rightarrow> create_response \<times> authoritative_store" where
  "create e store =
     (if has_confirmed (event_key e) store
      then (\<lparr>accepted = False, resp_duplicate = True\<rparr>, store)
      else (\<lparr>accepted = True, resp_duplicate = False\<rparr>, store @ [e]))"

text \<open>
  Requests that reach the store concurrently are applied one after the other, in some
  order: the list is that order.
\<close>

fun create_all :: "ScanEvent list \<Rightarrow> authoritative_store
     \<Rightarrow> create_response list \<times> authoritative_store" where
  "create_all [] store = ([], store)"
| "create_all (e # es) store =
     (let (r, store1) = create e store;
          (rs, store2) = create_all es store1
      in (r # rs, store2))"

text \<open>Invariant I1: no two rows of the store share (participantRef, checkpointId).\<close>

definition unique_keys :: "authoritative_store \<Rightarrow> bool" where
  "unique_keys store = distinct (map event_key store)"

section \<open>Notions the statements use\<close>

text \<open>
  The Dispatcher's step 1 as the specification words it, for comparison with
  \<open>scansToSync\<close>: "filter to events with nextEligibleAt <= now", then sort ascending by
  retryCount and take up to BATCH\_SIZE. \<open>PendingScan\<close> has no such field, so the
  eligibility time is a function of the event here.
\<close>

definition spec_scansToSync ::
  "(PendingScan \<Rightarrow> real) \<Rightarrow> real \<Rightarrow> PendingScan list \<Rightarrow> PendingScan list" where
  "spec_scansToSync nextEligibleAt now pending =
     take BATCH_SIZE (sort_key retryCount (filter (\<lambda>s. nextEligibleAt s \<le> now) pending))"

text \<open>
  Where an event can still be found on the device: in the pending queue as last set, or
  in its persisted copy. The hook keeps scans nowhere else.
\<close>

definition on_record :: "string \<Rightarrow> device \<Rightarrow> bool" where
  "on_record sid dv =
     (sid \<in> id_scan ` set (state_pendingScans dv)
      \<or> (case storage_PENDING_SCANS dv of
            None \<Rightarrow> False
          | Some scans \<Rightarrow> sid \<in> id_scan ` set scans))"

section \<open>Concrete inputs\<close>

text \<open>Two scans of one device, with a given retry count, and the states built from them.\<close>

definition scan_u1 :: "nat \<Rightarrow> PendingScan" where
  "scan_u1 n = \<lparr>id_scan = ''u1'', participantId = ''P1'', checkpointId = 1,
     timestamp = ''t1'', deviceId = ''device-A'', gpsLat = None, gpsLng = None,
     retryCount = n, createdAt = ''t1''\<rparr>"

definition scan_u2 :: "nat \<Rightarrow> PendingScan" where
  "scan_u2 n = \<lparr>id_scan = ''u2'', participantId = ''P2'', checkpointId = 1,
     timestamp = ''t2'', deviceId = ''device-A'', gpsLat = None, gpsLng = None,
     retryCount = n, createdAt = ''t2''\<rparr>"

text \<open>A render that is online, not syncing, with no synced logs and the given queue.\<close>

definition render_of :: "PendingScan list \<Rightarrow> render" where
  "render_of pending = \<lparr>isOnline = True, isSyncing = False, pendingScans = pending,
     scanLogs = [], hook_deviceId = ''device-A''\<rparr>"

text \<open>The device whose state and storage hold the given queue, before any effect.\<close>

definition device_of :: "PendingScan list \<Rightarrow> device" where
  "device_of pending = \<lparr>state_pendingScans = pending, state_isSyncing = False,
     state_syncError = None, state_lastSyncTime = None,
     storage_PENDING_SCANS = Some pending, storage_LAST_SYNC = None, trace = []\<rparr>"

text \<open>
  The device right after the hook has mounted, when an earlier session left a queue in
  storage: \<open>useState([])\<close> gives the empty queue until \<open>init\<close> has read the stored one.
\<close>

definition device_at_mount :: "PendingScan list \<Rightarrow> device" where
  "device_at_mount stored = (device_of stored)\<lparr>state_pendingScans := []\<rparr>"

text \<open>
  The device while a first sync cycle over \<open>[u1]\<close> awaits its request: the cycle has set
  the flag, cleared the error and sent \<open>u1\<close>.
\<close>

definition first_cycle_awaiting :: device where
  "first_cycle_awaiting =
     (device_of [scan_u1 0])\<lparr>state_isSyncing := True,
        trace := [SetIsSyncing True, SetSyncError None, MutateAsync (scan_u1 0)]\<rparr>"

text \<open>A loop turn whose request the server accepts, and one whose request is rejected.\<close>

definition attempt_accepted :: attempt where
  "attempt_accepted = \<lparr>mounted = True, jitter = 0, response = Resolved True False,
     stored_try = True, stored_catch = True\<rparr>"

definition attempt_rejected :: attempt where
  "attempt_rejected = \<lparr>mounted = True, jitter = 0, response = Rejected,
     stored_try = True, stored_catch = True\<rparr>"

text \<open>The loop environment in which every turn meets the same thing.\<close>

definition every_turn :: "attempt \<Rightarrow> nat \<Rightarrow> attempt" where
  "every_turn a j = a"

text \<open>An eligibility time that is the same for every event.\<close>

definition eligible_at :: "real \<Rightarrow> PendingScan \<Rightarrow> real" where
  "eligible_at t s = t"

definition row_1 :: ScanLogData where
  "row_1 = \<lparr>uuid = ''u1'', participantUuid = ''P1'', participantName = ''Asha'',
     participantBadge = ''B1'', data_checkpointId = 1, checkpointName = ''Gheti'',
     data_deviceId = None, data_gpsLat = None, data_gpsLng = None, scannedAt = ''t1''\<rparr>"

text \<open>An initialised, enabled logger whose retry queue holds the given scans.\<close>

definition logger_with :: "ScanLogData list \<Rightarrow> GoogleSheetsLogger" where
  "logger_with failed = \<lparr>config = Some \<lparr>spreadsheetId = ''sheet'', apiKey = ''key'',
       enabled = True\<rparr>,
     isInitialized = True, failedScans = failed, retryInterval = True, console = []\<rparr>"

section \<open>Backoff bounds\<close>

lemma getRetryDelay_capped: "getRetryDelay k j \<le> MAX_RETRY_DELAY"
  by (simp add: getRetryDelay_def Let_def)

text \<open>
  C7. For every retry count \<open>k\<close> and every jitter in \<open>[0, JITTER_MAX)\<close>, the delay is
  \<open>BASE * 2^k\<close> plus the jitter, a value of \<open>[BASE * 2^k, BASE * 2^k + JITTER_MAX]\<close>,
  capped at MAX\_DELAY: it is at least \<open>min (BASE * 2^k) MAX_DELAY\<close> and at most
  \<open>min (BASE * 2^k + JITTER_MAX) MAX_DELAY\<close>, with BASE = 1000, JITTER\_MAX = 500 and
  MAX\_DELAY = 30000.
\<close>

theorem C7_backoff_bounds:
  assumes "0 \<le> jit" and "jit < JITTER_MAX"
  shows "\<exists>x. BASE_RETRY_DELAY * 2 ^ k \<le> x \<and> x \<le> BASE_RETRY_DELAY * 2 ^ k + JITTER_MAX
           \<and> getRetryDelay k jit = min x MAX_RETRY_DELAY
           \<and> min (BASE_RETRY_DELAY * 2 ^ k) MAX_RETRY_DELAY \<le> getRetryDelay k jit
           \<and> getRetryDelay k jit \<le> min (BASE_RETRY_DELAY * 2 ^ k + JITTER_MAX) MAX_RETRY_DELAY
           \<and> BASE_RETRY_DELAY = 1000 \<and> JITTER_MAX = 500 \<and> MAX_RETRY_DELAY = 30000"
proof (intro exI [where x = "BASE_RETRY_DELAY * 2 ^ k + jit"] conjI)
  show "BASE_RETRY_DELAY * 2 ^ k \<le> BASE_RETRY_DELAY * 2 ^ k + jit"
    using assms(1) by simp
  show "BASE_RETRY_DELAY * 2 ^ k + jit \<le> BASE_RETRY_DELAY * 2 ^ k + JITTER_MAX"
    using assms(2) by simp
  show "getRetryDelay k jit = min (BASE_RETRY_DELAY * 2 ^ k + jit) MAX_RETRY_DELAY"
    by (simp add: getRetryDelay_def Let_def)
  show "min (BASE_RETRY_DELAY * 2 ^ k) MAX_RETRY_DELAY \<le> getRetryDelay k jit"
    using assms(1) by (simp add: getRetryDelay_def Let_def min_def)
  show "getRetryDelay k jit \<le> min (BASE_RETRY_DELAY * 2 ^ k + JITTER_MAX) MAX_RETRY_DELAY"
    using assms(2) by (simp add: getRetryDelay_def Let_def min_def)
  show "BASE_RETRY_DELAY = 1000" by (simp add: BASE_RETRY_DELAY_def)
  show "JITTER_MAX = 500" by (simp add: JITTER_MAX_def)
  show "MAX_RETRY_DELAY = 30000" by (simp add: MAX_RETRY_DELAY_def)
qed

theorem C7_backoff_bounds_witness:
  "(0::real) \<le> 250 \<and> 250 < JITTER_MAX
     \<and> min (BASE_RETRY_DELAY * 2 ^ 3) MAX_RETRY_DELAY \<le> getRetryDelay 3 250
     \<and> getRetryDelay 3 250 \<le> min (BASE_RETRY_DELAY * 2 ^ 3 + JITTER_MAX) MAX_RETRY_DELAY
     \<and> getRetryDelay 3 250 = 8250 \<and> getRetryDelay 7 250 = 30000"
proof -
  have j: "(0::real) \<le> 250" "(250::real) < JITTER_MAX"
    by (simp_all add: JITTER_MAX_def)
  from C7_backoff_bounds [OF j, of 3]
  have "min (BASE_RETRY_DELAY * 2 ^ 3) MAX_RETRY_DELAY \<le> getRetryDelay 3 250
     \<and> getRetryDelay 3 250 \<le> min (BASE_RETRY_DELAY * 2 ^ 3 + JITTER_MAX) MAX_RETRY_DELAY"
    by blast
  moreover have "getRetryDelay 3 250 = 8250" "getRetryDelay 7 250 = 30000"
    by (simp_all add: getRetryDelay_def BASE_RETRY_DELAY_def MAX_RETRY_DELAY_def)
  ultimately show ?thesis using j by simp
qed

section \<open>The poll interval of the snapshot queries\<close>

text \<open>
  What the two snapshot queries are given: POLL\_INTERVAL\_ONLINE (5000 ms) while
  \<open>isOnline\<close> is true, \<open>false\<close> while it is false.
\<close>

lemma query_options_refetchInterval:
  "refetchInterval (scanLogs_query_options online)
      = (if online then Some POLL_INTERVAL_ONLINE else None)
   \<and> refetchInterval (participants_query_options online)
      = (if online then Some POLL_INTERVAL_ONLINE else None)
   \<and> POLL_INTERVAL_ONLINE = 5000"
  by (simp add: scanLogs_query_options_def participants_query_options_def
      POLL_INTERVAL_ONLINE_def)

text \<open>
  C9 fails offline. SYNC\_CONFIG declares POLL\_INTERVAL\_OFFLINE = 30000 with the
  comment "30 seconds when offline", but no query reads it: with \<open>isOnline\<close> false both
  queries get \<open>refetchInterval: false\<close>, so the snapshot is not fetched every 30 seconds
  but not periodically at all. Online the interval is POLL\_INTERVAL\_ONLINE, as stated.
\<close>

theorem C9_offline_queries_do_not_poll:
  "refetchInterval (scanLogs_query_options False) = None
   \<and> refetchInterval (participants_query_options False) = None
   \<and> refetchInterval (scanLogs_query_options False) \<noteq> Some POLL_INTERVAL_OFFLINE
   \<and> POLL_INTERVAL_OFFLINE = 30000
   \<and> refetchInterval (scanLogs_query_options True) = Some POLL_INTERVAL_ONLINE
   \<and> refetchInterval (participants_query_options True) = Some POLL_INTERVAL_ONLINE
   \<and> POLL_INTERVAL_ONLINE = 5000"
  by (simp add: scanLogs_query_options_def participants_query_options_def
      POLL_INTERVAL_ONLINE_def POLL_INTERVAL_OFFLINE_def)

section \<open>The authoritative write path: uniqueness\<close>

lemma create_all_duplicates:
  "has_confirmed k store \<Longrightarrow> \<forall>e \<in> set es. event_key e = k \<Longrightarrow>
     create_all es store = (replicate (length es) \<lparr>accepted = False, resp_duplicate = True\<rparr>, store)"
  by (induction es) (simp_all add: create_def)

lemma create_fresh:
  "\<not> has_confirmed (event_key e) store \<Longrightarrow>
     create e store = (\<lparr>accepted = True, resp_duplicate = False\<rparr>, store @ [e])"
  by (simp add: create_def)

lemma has_confirmed_snoc: "has_confirmed (event_key e) (store @ [e])"
  by (simp add: has_confirmed_def)

lemma unique_keys_snoc:
  "unique_keys store \<Longrightarrow> \<not> has_confirmed (event_key e) store \<Longrightarrow> unique_keys (store @ [e])"
  by (auto simp: unique_keys_def has_confirmed_def)

lemma create_unique_keys: "unique_keys store \<Longrightarrow> unique_keys (snd (create e store))"
  by (simp add: create_def unique_keys_snoc)

lemma create_all_unique_keys: "unique_keys store \<Longrightarrow> unique_keys (snd (create_all es store))"
proof (induction es arbitrary: store)
  case Nil
  then show ?case by simp
next
  case (Cons e es)
  from Cons.IH [OF create_unique_keys [OF Cons.prems, of e]]
  show ?case by (simp add: split_beta)
qed

text \<open>
  C1. Take any requests for one key \<open>k\<close>, with distinct idempotency ids, and a store
  that satisfies I1 and holds no row for \<open>k\<close> yet. In whatever order \<open>es'\<close> the requests
  are applied, the first one applied is accepted and every other one is answered
  \<open>duplicate\<close>: exactly one \<open>accepted = true\<close>, all others \<open>duplicate = true\<close>. Afterwards
  the store still satisfies I1 and holds exactly one row for \<open>k\<close>.
\<close>

theorem C1_idempotent_uniqueness:
  assumes same_key: "\<forall>e \<in> set es. event_key e = k"
    and nonempty: "es \<noteq> []"
    and ids: "distinct (map event_id es)"
    and fresh: "\<not> has_confirmed k store"
    and inv: "unique_keys store"
    and order: "mset es' = mset es"
  shows "\<exists>first \<in> set es.
           create_all es' store =
             (\<lparr>accepted = True, resp_duplicate = False\<rparr>
                # replicate (length es - 1) \<lparr>accepted = False, resp_duplicate = True\<rparr>,
              store @ [first])
         \<and> length (filter accepted (fst (create_all es' store))) = 1
         \<and> length (filter resp_duplicate (fst (create_all es' store))) = length es - 1
         \<and> unique_keys (snd (create_all es' store))
         \<and> length (filter (\<lambda>e. event_key e = k) (snd (create_all es' store))) = 1"
proof -
  have set_eq: "set es' = set es" using order by (rule mset_eq_setD)
  have len_eq: "length es' = length es" using order by (rule mset_eq_length)
  from nonempty len_eq obtain e rest where es': "es' = e # rest"
    by (cases es') auto
  have e_in: "e \<in> set es" using es' set_eq by auto
  have key_e: "event_key e = k" using same_key e_in by blast
  have key_rest: "\<forall>x \<in> set rest. event_key x = event_key e"
    using same_key set_eq es' key_e by auto
  have first: "create e store = (\<lparr>accepted = True, resp_duplicate = False\<rparr>, store @ [e])"
    using fresh key_e by (simp add: create_fresh)
  have rest: "create_all rest (store @ [e]) =
      (replicate (length rest) \<lparr>accepted = False, resp_duplicate = True\<rparr>, store @ [e])"
    by (rule create_all_duplicates [OF has_confirmed_snoc key_rest])
  have all: "create_all es' store =
      (\<lparr>accepted = True, resp_duplicate = False\<rparr>
         # replicate (length es - 1) \<lparr>accepted = False, resp_duplicate = True\<rparr>,
       store @ [e])"
    using first rest len_eq es' by simp
  have none_before: "filter (\<lambda>x. event_key x = k) store = []"
    using fresh by (auto simp: has_confirmed_def filter_empty_conv)
  have "unique_keys (store @ [e])"
    using inv fresh key_e by (simp add: unique_keys_snoc)
  with all none_before key_e e_in show ?thesis
    by (intro bexI [of _ e]) simp_all
qed

theorem C1_idempotent_uniqueness_witness:
  "length (filter accepted (fst (create_all
      [\<lparr>event_id = ''id-B'', participantRef = ''P1'', event_checkpointId = 1\<rparr>,
       \<lparr>event_id = ''id-A'', participantRef = ''P1'', event_checkpointId = 1\<rparr>] []))) = 1
   \<and> length (filter accepted (fst (create_all
      [\<lparr>event_id = ''id-A'', participantRef = ''P1'', event_checkpointId = 1\<rparr>,
       \<lparr>event_id = ''id-B'', participantRef = ''P1'', event_checkpointId = 1\<rparr>] []))) = 1
   \<and> create_all
      [\<lparr>event_id = ''id-B'', participantRef = ''P1'', event_checkpointId = 1\<rparr>,
       \<lparr>event_id = ''id-A'', participantRef = ''P1'', event_checkpointId = 1\<rparr>] []
    = ([\<lparr>accepted = True, resp_duplicate = False\<rparr>, \<lparr>accepted = False, resp_duplicate = True\<rparr>],
       [\<lparr>event_id = ''id-B'', participantRef = ''P1'', event_checkpointId = 1\<rparr>])
   \<and> create_all
      [\<lparr>event_id = ''id-A'', participantRef = ''P1'', event_checkpointId = 1\<rparr>,
       \<lparr>event_id = ''id-B'', participantRef = ''P1'', event_checkpointId = 1\<rparr>] []
    = ([\<lparr>accepted = True, resp_duplicate = False\<rparr>, \<lparr>accepted = False, resp_duplicate = True\<rparr>],
       [\<lparr>event_id = ''id-A'', participantRef = ''P1'', event_checkpointId = 1\<rparr>])"
proof -
  let ?A = "\<lparr>event_id = ''id-A'', participantRef = ''P1'', event_checkpointId = 1\<rparr>"
  let ?B = "\<lparr>event_id = ''id-B'', participantRef = ''P1'', event_checkpointId = 1\<rparr>"
  have h1: "\<forall>e \<in> set [?A, ?B]. event_key e = (''P1'', 1)" by (simp add: event_key_def)
  have h2: "[?A, ?B] \<noteq> []" by simp
  have h3: "distinct (map event_id [?A, ?B])" by simp
  have h4: "\<not> has_confirmed (''P1'', 1) []" by (simp add: has_confirmed_def)
  have h5: "unique_keys []" by (simp add: unique_keys_def)
  have h6: "mset [?B, ?A] = mset [?A, ?B]" by simp
  have h7: "mset [?A, ?B] = mset [?A, ?B]" by simp
  from C1_idempotent_uniqueness [OF h1 h2 h3 h4 h5 h6]
  have a: "length (filter accepted (fst (create_all [?B, ?A] []))) = 1" by blast
  from C1_idempotent_uniqueness [OF h1 h2 h3 h4 h5 h7]
  have b: "length (filter accepted (fst (create_all [?A, ?B] []))) = 1" by blast
  have c: "create_all [?B, ?A] [] =
      ([\<lparr>accepted = True, resp_duplicate = False\<rparr>, \<lparr>accepted = False, resp_duplicate = True\<rparr>], [?B])"
    by (simp add: create_def has_confirmed_def event_key_def)
  have d: "create_all [?A, ?B] [] =
      ([\<lparr>accepted = True, resp_duplicate = False\<rparr>, \<lparr>accepted = False, resp_duplicate = True\<rparr>], [?A])"
    by (simp add: create_def has_confirmed_def event_key_def)
  from a b c d show ?thesis by blast
qed

section \<open>Dispatching one scan\<close>

lemma syncSingleScan_rejected:
  "syncSingleScan rd scan Rejected st True dv =
     (let kept = filter (\<lambda>s. retryCount s < MAX_RETRIES)
                   (map (\<lambda>s. if id_scan s = id_scan scan
                              then s\<lparr>retryCount := retryCount s + 1\<rparr> else s)
                        (pendingScans rd))
      in (Fulfilled False,
          dv\<lparr>storage_PENDING_SCANS := Some kept, state_pendingScans := kept,
             trace := trace dv @ [MutateAsync scan,
                        ConsoleError ''[OfflineSync] Failed to sync scan:'',
                        StorageSet_PENDING_SCANS kept, SetPendingScans kept]\<rparr>))"
  by (simp add: syncSingleScan_def syncSingleScan_settle_def syncSingleScan_catch_def
      savePendingScans_def emit_def Let_def)

lemma syncSingleScan_resolved:
  "a \<or> b \<Longrightarrow> syncSingleScan rd scan (Resolved a b) True sc dv =
     (let kept = filter (\<lambda>s. id_scan s \<noteq> id_scan scan) (pendingScans rd)
      in (Fulfilled True,
          dv\<lparr>storage_PENDING_SCANS := Some kept, state_pendingScans := kept,
             trace := trace dv @ [MutateAsync scan,
                        StorageSet_PENDING_SCANS kept, SetPendingScans kept]\<rparr>))"
  by (simp add: syncSingleScan_def syncSingleScan_settle_def
      savePendingScans_def emit_def Let_def)

lemma filter_other_ids:
  fixes scan :: PendingScan
  shows "distinct (map id_scan xs) \<Longrightarrow> scan \<in> set xs \<Longrightarrow>
     filter (\<lambda>s. id_scan s \<noteq> id_scan scan) xs = remove1 scan xs"
proof (induction xs)
  case Nil
  then show ?case by simp
next
  case (Cons x xs)
  show ?case
  proof (cases "x = scan")
    case True
    with Cons.prems have "\<forall>s \<in> set xs. id_scan s \<noteq> id_scan scan"
      by (auto simp: image_iff)
    then have "filter (\<lambda>s. id_scan s \<noteq> id_scan scan) xs = xs"
      by (simp add: filter_id_conv)
    with True show ?thesis by simp
  next
    case False
    with Cons.prems have "scan \<in> set xs" "id_scan x \<noteq> id_scan scan"
      by (auto simp: image_iff)
    with Cons False show ?thesis by simp
  qed
qed



lemma same_id_same_scan:
  fixes scan :: PendingScan
  assumes "distinct (map id_scan xs)" and "scan \<in> set xs" and "s \<in> set xs"
  shows "id_scan s = id_scan scan \<longleftrightarrow> s = scan"
  using assms by (auto simp: distinct_map inj_on_def)





text \<open>
  When the callback's queue holds the event (as in the first turn of a sync cycle), a
  dispatch does what section 4.3 asks below the ceiling: an accepted or duplicate
  response removes that event and no other, a rejection increments that event's count
  and changes no other.
\<close>

lemma dispatch_success_removes_that_event:
  assumes "scan \<in> set (pendingScans rd)"
    and "distinct (map id_scan (pendingScans rd))"
    and "a \<or> b"
  shows "state_pendingScans (snd (syncSingleScan rd scan (Resolved a b) True sc dv))
           = remove1 scan (pendingScans rd)
       \<and> storage_PENDING_SCANS (snd (syncSingleScan rd scan (Resolved a b) True sc dv))
           = Some (remove1 scan (pendingScans rd))"
  using assms filter_other_ids [OF assms(2,1)]
  by (simp add: syncSingleScan_resolved Let_def)

lemma dispatch_failure_increments_that_event:
  assumes "scan \<in> set (pendingScans rd)"
    and "distinct (map id_scan (pendingScans rd))"
    and "\<forall>s \<in> set (pendingScans rd). retryCount s < MAX_RETRIES"
    and "retryCount scan + 1 < MAX_RETRIES"
  shows "state_pendingScans (snd (syncSingleScan rd scan Rejected st True dv))
           = map (\<lambda>s. if s = scan then scan\<lparr>retryCount := retryCount scan + 1\<rparr> else s)
               (pendingScans rd)"
proof -
  define bump where
    "bump = (\<lambda>s::PendingScan. if id_scan s = id_scan scan
                               then s\<lparr>retryCount := retryCount s + 1\<rparr> else s)"
  have eq: "bump s = (if s = scan then scan\<lparr>retryCount := retryCount scan + 1\<rparr> else s)"
    if "s \<in> set (pendingScans rd)" for s
    using same_id_same_scan [OF assms(2,1) that] by (simp add: bump_def)
  have below: "retryCount (bump s) < MAX_RETRIES" if "s \<in> set (pendingScans rd)" for s
    using that assms(3,4) eq [OF that] by (cases "s = scan") simp_all
  have "filter (\<lambda>s. retryCount s < MAX_RETRIES) (map bump (pendingScans rd))
      = map bump (pendingScans rd)"
    using below by (simp add: filter_id_conv)
  also have "\<dots> = map (\<lambda>s. if s = scan then scan\<lparr>retryCount := retryCount scan + 1\<rparr> else s)
      (pendingScans rd)"
    using eq by (intro map_cong) simp_all
  finally show ?thesis
    by (simp add: syncSingleScan_rejected Let_def bump_def)
qed

text \<open>
  C3 fails on the path that \<open>addScan\<close> takes. Online, with an empty queue, \<open>addScan\<close>
  persists the new scan \<open>u1\<close> and returns success; the event is on record. The
  \<open>syncSingleScan\<close> it started reads the queue of its closure, which is the queue from
  before the append. When the request is rejected, the \<open>catch\<close> block increments nothing
  (the new scan is not in that list) and saves that list: the persisted queue and the
  state are empty, and the event that was pending is gone, its retry count never
  incremented.
\<close>

theorem C3_rejected_first_dispatch_drops_event:
  "newScan (render_of []) ''P1'' 1 None None ''u1'' ''t1'' ''t1'' = scan_u1 0
   \<and> fst (addScan (render_of []) ''P1'' 1 None None ''u1'' ''t1'' ''t1'' True (device_of []))
       = Fulfilled \<lparr>success = True, duplicate = False, scanLog = Some (pending_as_log (scan_u1 0))\<rparr>
   \<and> storage_PENDING_SCANS (snd (addScan (render_of []) ''P1'' 1 None None ''u1'' ''t1'' ''t1'' True (device_of [])))
       = Some [scan_u1 0]
   \<and> on_record ''u1'' (snd (addScan (render_of []) ''P1'' 1 None None ''u1'' ''t1'' ''t1'' True (device_of [])))
   \<and> storage_PENDING_SCANS (snd (addScan_dispatch_settled (render_of []) (scan_u1 0) Rejected True True
         (snd (addScan (render_of []) ''P1'' 1 None None ''u1'' ''t1'' ''t1'' True (device_of [])))))
       = Some []
   \<and> state_pendingScans (snd (addScan_dispatch_settled (render_of []) (scan_u1 0) Rejected True True
         (snd (addScan (render_of []) ''P1'' 1 None None ''u1'' ''t1'' ''t1'' True (device_of [])))))
       = []
   \<and> \<not> on_record ''u1'' (snd (addScan_dispatch_settled (render_of []) (scan_u1 0) Rejected True
         True (snd (addScan (render_of []) ''P1'' 1 None None ''u1'' ''t1'' ''t1'' True
                     (device_of [])))))"
  by (simp add: addScan_def newScan_def render_of_def device_of_def scan_u1_def
      isDuplicateScan_def savePendingScans_def emit_def Let_def on_record_def
      addScan_dispatch_settled_def syncSingleScan_settle_def syncSingleScan_catch_def)

text \<open>
  The same closure in the loop of a sync cycle: every turn filters the queue the cycle
  started with. With \<open>u1\<close> and \<open>u2\<close> pending and both accepted by the server, the second
  save puts \<open>u1\<close> back: the cycle ends with \<open>u1\<close> pending again.
\<close>

lemma sync_cycle_restores_removed_event:
  "state_pendingScans (syncPendingScans (render_of [scan_u1 0, scan_u2 0])
       (every_turn attempt_accepted) ''t9'' True True (device_of [scan_u1 0, scan_u2 0]))
     = [scan_u1 0]"
  by (simp add: syncPendingScans_def render_of_def device_of_def attempt_accepted_def every_turn_def
      scansToSync_def BATCH_SIZE_def syncSingleScan_def syncSingleScan_settle_def
      savePendingScans_def emit_def Let_def scan_u1_def scan_u2_def)

section \<open>Submitting a scan\<close>

lemma isDuplicateScan_isOnline:
  "isDuplicateScan (rd\<lparr>isOnline := b\<rparr>) pid cid = isDuplicateScan rd pid cid"
  by (simp add: isDuplicateScan_def)

lemma newScan_isOnline:
  "newScan (rd\<lparr>isOnline := b\<rparr>) pid cid lat lng new_id now created
     = newScan rd pid cid lat lng new_id now created"
  by (simp add: newScan_def)

text \<open>
  What \<open>addScan\<close> does for a key that is not a known duplicate: it first writes the
  queue of its closure with the new scan appended, then sets the state, and returns
  \<open>{success: true, duplicate: false}\<close> with the new scan; when online it has also sent
  the request, after the write and without waiting for it to settle (how the request
  settles is no argument of \<open>addScan\<close>). Result, written queue and state are the same
  whether \<open>isOnline\<close> is true or false. If the storage write rejects, \<open>addScan\<close>
  rejects: it never returns success without the write.
\<close>

lemma addScan_persists_then_returns:
  assumes "\<not> isDuplicateScan rd pid cid"
  shows "fst (addScan (rd\<lparr>isOnline := online\<rparr>) pid cid lat lng new_id now created True dv)
           = Fulfilled \<lparr>success = True, duplicate = False,
               scanLog = Some (pending_as_log (newScan rd pid cid lat lng new_id now created))\<rparr>
       \<and> storage_PENDING_SCANS
            (snd (addScan (rd\<lparr>isOnline := online\<rparr>) pid cid lat lng new_id now created True dv))
           = Some (pendingScans rd @ [newScan rd pid cid lat lng new_id now created])
       \<and> state_pendingScans
            (snd (addScan (rd\<lparr>isOnline := online\<rparr>) pid cid lat lng new_id now created True dv))
           = pendingScans rd @ [newScan rd pid cid lat lng new_id now created]
       \<and> trace (snd (addScan (rd\<lparr>isOnline := online\<rparr>) pid cid lat lng new_id now created
                        True dv))
           = trace dv
             @ [StorageSet_PENDING_SCANS
                  (pendingScans rd @ [newScan rd pid cid lat lng new_id now created]),
                SetPendingScans (pendingScans rd @ [newScan rd pid cid lat lng new_id now created])]
             @ (if online then [MutateAsync (newScan rd pid cid lat lng new_id now created)]
                else [])
       \<and> addScan (rd\<lparr>isOnline := online\<rparr>) pid cid lat lng new_id now created False dv
           = (Threw, dv)"
  using assms
  by (simp add: addScan_def isDuplicateScan_isOnline newScan_isOnline savePendingScans_def
      emit_def Let_def)

text \<open>
  When the queue of the closure is the durable queue, the write is an append to the
  durable queue: the stored queue afterwards is the stored queue from before followed by
  the new scan, whose fields are those of the submission.
\<close>

lemma addScan_appends_when_closure_is_current:
  assumes "\<not> isDuplicateScan rd pid cid"
    and "storage_PENDING_SCANS dv = Some (pendingScans rd)"
  shows "\<exists>stored new.
           storage_PENDING_SCANS dv = Some stored
         \<and> storage_PENDING_SCANS
              (snd (addScan rd pid cid lat lng new_id now created True dv))
             = Some (stored @ [new])
         \<and> id_scan new = new_id \<and> participantId new = pid \<and> checkpointId new = cid
         \<and> gpsLat new = lat \<and> gpsLng new = lng \<and> retryCount new = 0
         \<and> timestamp new = now \<and> createdAt new = created
         \<and> deviceId new = hook_deviceId rd"
  using assms
  by (intro exI [of _ "pendingScans rd"]
        exI [of _ "newScan rd pid cid lat lng new_id now created"])
     (simp add: addScan_def savePendingScans_def emit_def Let_def newScan_def)

text \<open>
  C4 fails when the queue of the closure is not the durable queue. \<open>savePendingScans\<close>
  replaces the whole stored queue by \<open>[...pendingScans, newScan]\<close>, and \<open>pendingScans\<close> is
  the constant of the render. Right after mount that constant is \<open>[]\<close> while storage
  still holds the queue of the earlier session, here \<open>[u2]\<close>: \<open>u2\<close> is on record, the key
  (P1, 1) is no known duplicate, \<open>addScan\<close> returns success, and the stored queue is
  \<open>[u1]\<close>. The new scan was not appended to the durable queue, the durable queue was
  overwritten: \<open>u2\<close> is on record nowhere.
\<close>

theorem C4_addScan_overwrites_durable_queue:
  "\<not> isDuplicateScan (render_of []) ''P1'' 1
   \<and> storage_PENDING_SCANS (device_at_mount [scan_u2 0]) = Some [scan_u2 0]
   \<and> on_record ''u2'' (device_at_mount [scan_u2 0])
   \<and> fst (addScan (render_of []) ''P1'' 1 None None ''u1'' ''t1'' ''t1'' True
            (device_at_mount [scan_u2 0]))
       = Fulfilled \<lparr>success = True, duplicate = False,
                    scanLog = Some (pending_as_log (scan_u1 0))\<rparr>
   \<and> storage_PENDING_SCANS
        (snd (addScan (render_of []) ''P1'' 1 None None ''u1'' ''t1'' ''t1'' True
                (device_at_mount [scan_u2 0])))
       = Some [scan_u1 0]
   \<and> state_pendingScans
        (snd (addScan (render_of []) ''P1'' 1 None None ''u1'' ''t1'' ''t1'' True
                (device_at_mount [scan_u2 0])))
       = [scan_u1 0]
   \<and> \<not> on_record ''u2''
        (snd (addScan (render_of []) ''P1'' 1 None None ''u1'' ''t1'' ''t1'' True
                (device_at_mount [scan_u2 0])))"
  by (simp add: addScan_def newScan_def render_of_def device_of_def device_at_mount_def
      scan_u1_def scan_u2_def isDuplicateScan_def savePendingScans_def emit_def Let_def
      on_record_def)

text \<open>
  C10. When \<open>isDuplicateScan\<close> reports the key, \<open>addScan\<close> returns
  \<open>{success: false, duplicate: true}\<close> and the device is exactly as before: pending
  queue, persisted copy, scan view and trace (so no request was sent).
\<close>

theorem C10_duplicate_rejected_without_effect:
  assumes "isDuplicateScan rd pid cid"
  shows "addScan rd pid cid lat lng new_id now created stored dv =
           (Fulfilled \<lparr>success = False, duplicate = True, scanLog = None\<rparr>, dv)
       \<and> state_pendingScans (snd (addScan rd pid cid lat lng new_id now created stored dv))
           = state_pendingScans dv
       \<and> storage_PENDING_SCANS (snd (addScan rd pid cid lat lng new_id now created stored dv))
           = storage_PENDING_SCANS dv
       \<and> allScanLogs (scanLogs rd)
             (state_pendingScans (snd (addScan rd pid cid lat lng new_id now created stored dv)))
           = allScanLogs (scanLogs rd) (state_pendingScans dv)
       \<and> dispatched (trace (snd (addScan rd pid cid lat lng new_id now created stored dv)))
           = dispatched (trace dv)"
  using assms by (simp add: addScan_def)

theorem C10_duplicate_rejected_without_effect_witness:
  "isDuplicateScan (render_of [scan_u1 0]) ''P1'' 1
   \<and> addScan (render_of [scan_u1 0]) ''P1'' 1 None None ''u3'' ''t3'' ''t3'' True (device_of [scan_u1 0])
       = (Fulfilled \<lparr>success = False, duplicate = True, scanLog = None\<rparr>, device_of [scan_u1 0])"
proof -
  have h: "isDuplicateScan (render_of [scan_u1 0]) ''P1'' 1"
    by (simp add: isDuplicateScan_def render_of_def scan_u1_def)
  from C10_duplicate_rejected_without_effect [OF h] h show ?thesis by blast
qed

section \<open>The sync cycle\<close>

lemma dispatched_append: "dispatched (xs @ ys) = dispatched xs @ dispatched ys"
  by (induction xs rule: dispatched.induct) simp_all

lemma dispatched_emit:
  "dispatched (trace (emit e dv)) = dispatched (trace dv) @ dispatched [e]"
  by (simp add: emit_def dispatched_append)

lemma savePendingScans_dispatched:
  "savePendingScans scans b dv = Some dv' \<Longrightarrow> dispatched (trace dv') = dispatched (trace dv)"
  by (auto simp: savePendingScans_def dispatched_append split: if_splits)

lemma syncSingleScan_catch_dispatched:
  "dispatched (trace (snd (syncSingleScan_catch rd scan b dv))) = dispatched (trace dv)"
  by (cases b) (simp_all add: syncSingleScan_catch_def savePendingScans_def emit_def
      dispatched_append Let_def)

lemma syncSingleScan_settle_dispatched:
  "dispatched (trace (snd (syncSingleScan_settle rd scan oc a b dv))) = dispatched (trace dv)"
proof (cases oc)
  case (Resolved x y)
  then show ?thesis
    by (cases a) (simp_all add: syncSingleScan_settle_def savePendingScans_def
        syncSingleScan_catch_dispatched dispatched_append Let_def)
next
  case Rejected
  then show ?thesis
    by (simp add: syncSingleScan_settle_def syncSingleScan_catch_dispatched)
qed

lemma syncSingleScan_dispatched:
  "dispatched (trace (snd (syncSingleScan rd scan oc a b dv))) = dispatched (trace dv) @ [scan]"
  by (simp add: syncSingleScan_def syncSingleScan_settle_dispatched dispatched_emit)

lemma syncSingleScan_catch_no_throw:
  "fst (syncSingleScan_catch rd scan True dv) = Fulfilled False"
  by (simp add: syncSingleScan_catch_def savePendingScans_def Let_def)

lemma syncSingleScan_no_throw:
  "fst (syncSingleScan rd scan oc a True dv) \<noteq> Threw"
proof (cases oc)
  case (Resolved x y)
  then show ?thesis
    by (cases a) (simp_all add: syncSingleScan_def syncSingleScan_settle_def
        savePendingScans_def syncSingleScan_catch_no_throw Let_def)
next
  case Rejected
  then show ?thesis
    by (simp add: syncSingleScan_def syncSingleScan_settle_def syncSingleScan_catch_no_throw)
qed

lemma sync_loop_dispatched:
  "\<exists>n \<le> length scans.
     dispatched (trace (snd (sync_loop rd env i scans dv))) = dispatched (trace dv) @ take n scans"
proof (induction scans arbitrary: i dv)
  case Nil
  then show ?case by simp
next
  case (Cons scan rest)
  show ?case
  proof (cases "mounted (env i)")
    case False
    then have "dispatched (trace (snd (sync_loop rd env i (scan # rest) dv)))
        = dispatched (trace dv) @ take 0 (scan # rest)" by simp
    then show ?thesis by blast
  next
    case True
    define dv1 where "dv1 = (if retryCount scan > 0
        then emit (SetTimeout (getRetryDelay (retryCount scan) (jitter (env i)))) dv else dv)"
    have d1: "dispatched (trace dv1) = dispatched (trace dv)"
      by (simp add: dv1_def dispatched_emit)
    obtain r dv2 where step: "syncSingleScan rd scan (response (env i)) (stored_try (env i))
        (stored_catch (env i)) dv1 = (r, dv2)" by (cases "syncSingleScan rd scan (response (env i)) (stored_try (env i))
        (stored_catch (env i)) dv1") 
    have d2: "dispatched (trace dv2) = dispatched (trace dv) @ [scan]"
      using syncSingleScan_dispatched [of rd scan "response (env i)" "stored_try (env i)"
          "stored_catch (env i)" dv1] step d1 by simp
    show ?thesis
    proof (cases r)
      case Threw
      with True step have "sync_loop rd env i (scan # rest) dv = (Threw, dv2)"
        by (simp add: dv1_def)
      with d2 have "dispatched (trace (snd (sync_loop rd env i (scan # rest) dv)))
        = dispatched (trace dv) @ take 1 (scan # rest)" by simp
      then show ?thesis by (intro exI [of _ 1]) simp
    next
      case (Fulfilled ok)
      define dv3 where "dv3 = (if ok then emit (SetTimeout 50) dv2 else dv2)"
      have d3: "dispatched (trace dv3) = dispatched (trace dv) @ [scan]"
        by (simp add: dv3_def dispatched_emit d2)
      from Fulfilled True step
      have eq: "sync_loop rd env i (scan # rest) dv = sync_loop rd env (Suc i) rest dv3"
        by (simp add: dv1_def dv3_def)
      from Cons.IH [of "Suc i" dv3] obtain n where n: "n \<le> length rest"
        "dispatched (trace (snd (sync_loop rd env (Suc i) rest dv3)))
           = dispatched (trace dv3) @ take n rest" by blast
      with eq d3 have "dispatched (trace (snd (sync_loop rd env i (scan # rest) dv)))
           = dispatched (trace dv) @ take (Suc n) (scan # rest)" by simp
      with n(1) show ?thesis by (intro exI [of _ "Suc n"]) simp
    qed
  qed
qed

lemma sync_loop_complete:
  assumes "\<forall>j. mounted (env j) \<and> stored_catch (env j)"
  shows "fst (sync_loop rd env i scans dv) \<noteq> Threw \<and>
     dispatched (trace (snd (sync_loop rd env i scans dv))) = dispatched (trace dv) @ scans"
proof (induction scans arbitrary: i dv)
  case Nil
  then show ?case by simp
next
  case (Cons scan rest)
  have m: "mounted (env i)" and c: "stored_catch (env i)" using assms by simp_all
  define dv1 where "dv1 = (if retryCount scan > 0
      then emit (SetTimeout (getRetryDelay (retryCount scan) (jitter (env i)))) dv else dv)"
  have d1: "dispatched (trace dv1) = dispatched (trace dv)"
    by (simp add: dv1_def dispatched_emit)
  obtain r dv2 where step: "syncSingleScan rd scan (response (env i)) (stored_try (env i))
      (stored_catch (env i)) dv1 = (r, dv2)" by (cases "syncSingleScan rd scan (response (env i)) (stored_try (env i))
      (stored_catch (env i)) dv1")
  have d2: "dispatched (trace dv2) = dispatched (trace dv) @ [scan]"
    using syncSingleScan_dispatched [of rd scan "response (env i)" "stored_try (env i)"
        "stored_catch (env i)" dv1] step d1 by simp
  have "r \<noteq> Threw"
    using syncSingleScan_no_throw [of rd scan "response (env i)" "stored_try (env i)" dv1] step c
    by simp
  then obtain ok where r: "r = Fulfilled ok" by (cases r) auto
  define dv3 where "dv3 = (if ok then emit (SetTimeout 50) dv2 else dv2)"
  have d3: "dispatched (trace dv3) = dispatched (trace dv) @ [scan]"
    by (simp add: dv3_def dispatched_emit d2)
  from r m step
  have eq: "sync_loop rd env i (scan # rest) dv = sync_loop rd env (Suc i) rest dv3"
    by (simp add: dv1_def dv3_def)
  from Cons.IH [of "Suc i" dv3] eq d3 show ?case by simp
qed

lemma syncPendingScans_catch_dispatched:
  "dispatched (trace (syncPendingScans_catch dv)) = dispatched (trace dv)"
  by (simp add: syncPendingScans_catch_def Let_def emit_def dispatched_append)

lemma syncPendingScans_dispatched:
  assumes "isOnline rd" and "\<not> isSyncing rd" and "pendingScans rd \<noteq> []"
  shows "dispatched (trace (syncPendingScans rd env now sl me dv)) =
     dispatched (trace (snd (sync_loop rd env 0 (scansToSync (pendingScans rd))
        ((emit (SetSyncError None) ((emit (SetIsSyncing True) dv)\<lparr>state_isSyncing := True\<rparr>))
           \<lparr>state_syncError := None\<rparr>))))"
proof -
  let ?dv2 = "(emit (SetSyncError None) ((emit (SetIsSyncing True) dv)\<lparr>state_isSyncing := True\<rparr>))
           \<lparr>state_syncError := None\<rparr>"
  obtain r d where loop: "sync_loop rd env 0 (scansToSync (pendingScans rd)) ?dv2 = (r, d)"
    by (cases "sync_loop rd env 0 (scansToSync (pendingScans rd)) ?dv2")
  show ?thesis
    using assms loop
    by (cases r; cases sl; cases me)
      (simp_all add: syncPendingScans_def Let_def syncPendingScans_catch_dispatched
        dispatched_emit emit_def dispatched_append)
qed

text \<open>
  The guard of \<open>syncPendingScans\<close>: a call that reads \<open>isSyncing\<close> as true returns at once
  and leaves the device as it is.
\<close>

lemma syncPendingScans_returns_when_isSyncing:
  assumes "isSyncing rd"
  shows "syncPendingScans rd env now sl me dv = dv"
  using assms by (simp add: syncPendingScans_def)

text \<open>
  C5 fails when the second call comes through a callback of the render that started the
  first cycle. A cycle over \<open>[u1]\<close>, started from a render with \<open>isSyncing = false\<close>,
  begins with \<open>setIsSyncing(true)\<close>, \<open>setSyncError(null)\<close> and the request for \<open>u1\<close>: while
  it awaits the response the state flag is set. The \<open>isSyncing\<close> that \<open>syncPendingScans\<close>
  of that render reads is still the \<open>const\<close> of the render, false. Called again in that
  state, it passes the guard and runs a second cycle: the device changes and \<open>u1\<close> is
  sent a second time.
\<close>

theorem C5_second_call_runs_second_cycle:
  "\<not> isSyncing (render_of [scan_u1 0])
   \<and> take 3 (trace (syncPendingScans (render_of [scan_u1 0]) (every_turn attempt_accepted)
          ''t8'' True True (device_of [scan_u1 0])))
       = trace first_cycle_awaiting
   \<and> state_isSyncing first_cycle_awaiting
   \<and> syncPendingScans (render_of [scan_u1 0]) (every_turn attempt_accepted) ''t9'' True True
          first_cycle_awaiting
       \<noteq> first_cycle_awaiting
   \<and> dispatched (trace (syncPendingScans (render_of [scan_u1 0]) (every_turn attempt_accepted)
          ''t9'' True True first_cycle_awaiting))
       = [scan_u1 0, scan_u1 0]"
proof -
  have first: "take 3 (trace (syncPendingScans (render_of [scan_u1 0]) (every_turn attempt_accepted)
          ''t8'' True True (device_of [scan_u1 0])))
       = trace first_cycle_awaiting"
    by (simp add: syncPendingScans_def render_of_def device_of_def attempt_accepted_def every_turn_def
        scansToSync_def BATCH_SIZE_def syncSingleScan_def syncSingleScan_settle_def
        savePendingScans_def emit_def Let_def scan_u1_def first_cycle_awaiting_def)
  have second: "dispatched (trace (syncPendingScans (render_of [scan_u1 0])
          (every_turn attempt_accepted) ''t9'' True True first_cycle_awaiting))
       = [scan_u1 0, scan_u1 0]"
    by (simp add: syncPendingScans_def render_of_def device_of_def attempt_accepted_def every_turn_def
        scansToSync_def BATCH_SIZE_def syncSingleScan_def syncSingleScan_settle_def
        savePendingScans_def emit_def Let_def scan_u1_def first_cycle_awaiting_def)
  have before: "dispatched (trace first_cycle_awaiting) = [scan_u1 0]"
    by (simp add: first_cycle_awaiting_def)
  from second before
  have changed: "syncPendingScans (render_of [scan_u1 0]) (every_turn attempt_accepted) ''t9'' True True
          first_cycle_awaiting \<noteq> first_cycle_awaiting"
    by auto
  have flags: "\<not> isSyncing (render_of [scan_u1 0])" "state_isSyncing first_cycle_awaiting"
    by (simp_all add: render_of_def first_cycle_awaiting_def)
  from first second changed flags show ?thesis by blast
qed

theorem C5_second_call_runs_second_cycle_witness:
  "dispatched (trace (syncPendingScans (render_of [scan_u1 0]) (every_turn attempt_accepted)
      ''t9'' True True first_cycle_awaiting))
     \<noteq> dispatched (trace first_cycle_awaiting)"
proof -
  have "dispatched (trace first_cycle_awaiting) = [scan_u1 0]"
    by (simp add: first_cycle_awaiting_def)
  with C5_second_call_runs_second_cycle show ?thesis by simp
qed

text \<open>
  C6, as the code has it. A cycle that passes its guard takes the whole pending list of
  its render (there is no eligibility filter: \<open>PendingScan\<close> has no \<open>nextEligibleAt\<close>),
  sorts it ascending by \<open>retryCount\<close>, and dispatches from the front of the sorted list,
  in that order, at most BATCH\_SIZE (50) events: the scans sent are a prefix of the
  first 50, and all of the first 50 when the hook stays mounted and no storage write of
  a \<open>catch\<close> block rejects.
\<close>

theorem C6_cycle_batch:
  assumes "isOnline rd" and "\<not> isSyncing rd" and "pendingScans rd \<noteq> []"
  shows "(\<exists>n \<le> BATCH_SIZE.
            dispatched (trace (syncPendingScans rd env now sl me dv)) =
              dispatched (trace dv) @ take n (sort_key retryCount (pendingScans rd)))
       \<and> ((\<forall>j. mounted (env j) \<and> stored_catch (env j)) \<longrightarrow>
            dispatched (trace (syncPendingScans rd env now sl me dv)) =
              dispatched (trace dv) @ take BATCH_SIZE (sort_key retryCount (pendingScans rd)))
       \<and> sorted (map retryCount (sort_key retryCount (pendingScans rd)))
       \<and> mset (sort_key retryCount (pendingScans rd)) = mset (pendingScans rd)
       \<and> scansToSync (pendingScans rd) = take BATCH_SIZE (sort_key retryCount (pendingScans rd))
       \<and> BATCH_SIZE = 50"
proof -
  let ?dv2 = "(emit (SetSyncError None) ((emit (SetIsSyncing True) dv)\<lparr>state_isSyncing := True\<rparr>))
           \<lparr>state_syncError := None\<rparr>"
  let ?batch = "scansToSync (pendingScans rd)"
  have start: "dispatched (trace ?dv2) = dispatched (trace dv)"
    by (simp add: emit_def dispatched_append)
  have batch: "?batch = take BATCH_SIZE (sort_key retryCount (pendingScans rd))"
    by (simp add: scansToSync_def Let_def)
  have whole: "dispatched (trace (syncPendingScans rd env now sl me dv)) =
      dispatched (trace (snd (sync_loop rd env 0 ?batch ?dv2)))"
    by (rule syncPendingScans_dispatched [OF assms])
  from sync_loop_dispatched [of ?batch rd env 0 ?dv2]
  obtain n where n: "n \<le> length ?batch"
    and tr: "dispatched (trace (snd (sync_loop rd env 0 ?batch ?dv2))) =
        dispatched (trace ?dv2) @ take n ?batch" by blast
  from n have n50: "n \<le> BATCH_SIZE" by (simp add: batch)
  then have "take n ?batch = take n (sort_key retryCount (pendingScans rd))"
    by (simp add: batch min_def)
  with whole tr start n50 have first: "\<exists>n \<le> BATCH_SIZE.
      dispatched (trace (syncPendingScans rd env now sl me dv)) =
        dispatched (trace dv) @ take n (sort_key retryCount (pendingScans rd))"
    by auto
  have second: "(\<forall>j. mounted (env j) \<and> stored_catch (env j)) \<longrightarrow>
      dispatched (trace (syncPendingScans rd env now sl me dv)) =
        dispatched (trace dv) @ take BATCH_SIZE (sort_key retryCount (pendingScans rd))"
  proof
    assume "\<forall>j. mounted (env j) \<and> stored_catch (env j)"
    from sync_loop_complete [OF this, of rd 0 ?batch ?dv2] whole start batch
    show "dispatched (trace (syncPendingScans rd env now sl me dv)) =
        dispatched (trace dv) @ take BATCH_SIZE (sort_key retryCount (pendingScans rd))"
      by simp
  qed
  from first second batch show ?thesis
    by (simp add: BATCH_SIZE_def)
qed

theorem C6_cycle_batch_witness:
  "isOnline (render_of [scan_u1 2, scan_u2 0])
   \<and> \<not> isSyncing (render_of [scan_u1 2, scan_u2 0])
   \<and> pendingScans (render_of [scan_u1 2, scan_u2 0]) \<noteq> []
   \<and> dispatched (trace (syncPendingScans (render_of [scan_u1 2, scan_u2 0])
        (every_turn attempt_accepted) ''t9'' True True (device_of [scan_u1 2, scan_u2 0])))
       = [scan_u2 0, scan_u1 2]"
proof -
  let ?rd = "render_of [scan_u1 2, scan_u2 0]"
  have h: "isOnline ?rd" "\<not> isSyncing ?rd" "pendingScans ?rd \<noteq> []"
    by (simp_all add: render_of_def)
  have env: "\<forall>j. mounted (every_turn attempt_accepted j)
      \<and> stored_catch (every_turn attempt_accepted j)"
    by (simp add: attempt_accepted_def every_turn_def)
  have sorted_two: "take BATCH_SIZE (sort_key retryCount (pendingScans ?rd)) = [scan_u2 0, scan_u1 2]"
    by (simp add: render_of_def BATCH_SIZE_def scan_u1_def scan_u2_def)
  have t: "dispatched (trace (device_of [scan_u1 2, scan_u2 0])) = []"
    by (simp add: device_of_def)
  from C6_cycle_batch [OF h, of "every_turn attempt_accepted" "''t9''" True True
      "device_of [scan_u1 2, scan_u2 0]"] env
  have "dispatched (trace (syncPendingScans ?rd (every_turn attempt_accepted) ''t9'' True True
      (device_of [scan_u1 2, scan_u2 0])))
    = dispatched (trace (device_of [scan_u1 2, scan_u2 0]))
      @ take BATCH_SIZE (sort_key retryCount (pendingScans ?rd))"
    by blast
  with sorted_two t h show ?thesis by simp
qed

text \<open>
  An event that is not eligible yet (retry count 1, eligible at 2000, cycle at 0): the
  specification's batch is empty, the code's batch holds the event and the cycle sends it.
\<close>

theorem C6_no_eligibility_filter_counterexample:
  "spec_scansToSync (eligible_at 2000) 0 [scan_u1 1] = []
   \<and> scansToSync [scan_u1 1] = [scan_u1 1]
   \<and> dispatched (trace (syncPendingScans (render_of [scan_u1 1]) (every_turn attempt_rejected)
        ''t9'' True True (device_of [scan_u1 1]))) = [scan_u1 1]"
  by (simp add: spec_scansToSync_def syncPendingScans_def render_of_def device_of_def
      attempt_rejected_def every_turn_def eligible_at_def
      scansToSync_def BATCH_SIZE_def syncSingleScan_def syncSingleScan_settle_def
      syncSingleScan_catch_def
      savePendingScans_def emit_def Let_def scan_u1_def MAX_RETRIES_def)

section \<open>The secondary sink's retry queue\<close>

lemma say_failedScans: "failedScans (say l lg) = failedScans lg"
  by (simp add: say_def)

lemma init_failedScans: "failedScans (init sid key conn lg) = failedScans lg"
  by (simp add: init_def say_def Let_def split: option.splits)

lemma startRetryProcessor_failedScans: "failedScans (startRetryProcessor lg) = failedScans lg"
  by (simp add: startRetryProcessor_def)

lemma logScanDirect_failedScans:
  "failedScans (snd (logScanDirect scanData fetched lg)) = failedScans lg"
  by (simp add: logScanDirect_def say_def split: option.splits fetch_outcome.splits)

lemma logScan_bounded:
  assumes "length (failedScans lg) \<le> maxRetryQueueSize"
  shows "length (failedScans (snd (logScan sid key conn scanData fetched lg))) \<le> maxRetryQueueSize"
proof -
  define lg1 where "lg1 = (if \<not> isInitialized lg then init sid key conn lg else lg)"
  have b1: "failedScans lg1 = failedScans lg"
    by (simp add: lg1_def init_failedScans)
  obtain result lg3 where direct:
    "logScanDirect scanData fetched (startRetryProcessor lg1) = (result, lg3)"
    by (cases "logScanDirect scanData fetched (startRetryProcessor lg1)")
  have b3: "failedScans lg3 = failedScans lg"
    using logScanDirect_failedScans [of scanData fetched "startRetryProcessor lg1"] direct b1
    by (simp add: startRetryProcessor_failedScans)
  show ?thesis
    using assms b1 b3 direct
    by (simp add: logScan_def lg1_def [symmetric] Let_def say_failedScans
        split: option.splits)
qed

lemma retry_one_bounded:
  assumes "length (failedScans lg) \<le> maxRetryQueueSize"
  shows "length (failedScans (retry_one scan fetched lg)) \<le> maxRetryQueueSize"
proof -
  obtain result lg1 where direct: "logScanDirect scan fetched lg = (result, lg1)"
    by (cases "logScanDirect scan fetched lg")
  have "failedScans lg1 = failedScans lg"
    using logScanDirect_failedScans [of scan fetched lg] direct by simp
  with assms direct show ?thesis
    by (simp add: retry_one_def say_failedScans)
qed

lemma retry_loop_bounded:
  "length (failedScans lg) \<le> maxRetryQueueSize \<Longrightarrow>
     length (failedScans (retry_loop fetched i scans lg)) \<le> maxRetryQueueSize"
  by (induction scans arbitrary: i lg) (simp_all add: retry_one_bounded)

lemma retry_tick_bounded:
  assumes "length (failedScans lg) \<le> maxRetryQueueSize"
  shows "length (failedScans (retry_tick fetched lg)) \<le> maxRetryQueueSize"
proof (cases "failedScans lg = []")
  case True
  with assms show ?thesis by (simp add: retry_tick_def)
next
  case False
  let ?lg2 = "(say (Log_retrying (length (failedScans lg))) lg)\<lparr>failedScans := []\<rparr>"
  have "length (failedScans ?lg2) \<le> maxRetryQueueSize" by simp
  from retry_loop_bounded [OF this, of fetched 0 "failedScans lg"] False
  show ?thesis
    by (simp add: retry_tick_def Let_def say_failedScans)
qed

lemma logger_run_bounded:
  "length (failedScans lg) \<le> maxRetryQueueSize \<Longrightarrow>
     length (failedScans (logger_run evs lg)) \<le> maxRetryQueueSize"
proof (induction evs arbitrary: lg)
  case Nil
  then show ?case by simp
next
  case (Cons ev evs)
  have "length (failedScans (logger_step ev lg)) \<le> maxRetryQueueSize"
    using Cons.prems by (cases ev) (simp_all add: logScan_bounded retry_tick_bounded)
  from Cons.IH [OF this] show ?case by simp
qed

text \<open>
  C8 fails in \<open>logScan\<close>. With the retry queue at its capacity of 1000, a \<open>logScan\<close> whose
  write fails leaves the queue as it is and writes one console line, the failure line of
  \<open>logScanDirect\<close>, which it also writes when the queue has room (followed there by the
  line that reports the enqueueing). Nothing says that the entry was dropped. The retry
  processor, in the same state, does log the drop.
\<close>

theorem C8_logScan_drops_without_warning:
  "length (failedScans (logger_with (replicate 1000 row_1))) = maxRetryQueueSize
   \<and> logScan None None True row_1 (Response_not_ok None) (logger_with (replicate 1000 row_1))
       = (LogResult False (Some ''Failed to append to sheet''),
          (logger_with (replicate 1000 row_1))\<lparr>console := [Error_failed_to_log_scan]\<rparr>)
   \<and> console (snd (logScan None None True row_1 (Response_not_ok None) (logger_with [])))
       = [Error_failed_to_log_scan, Log_added_to_retry_queue 1]
   \<and> console (retry_one row_1 (Response_not_ok None) (logger_with (replicate 1000 row_1)))
       = [Error_failed_to_log_scan, Error_dropping_scan ''u1'']"
  by (simp add: logger_with_def maxRetryQueueSize_def logScan_def logScanDirect_def
      startRetryProcessor_def say_def retry_one_def row_1_def Let_def)

end
